theory Spec2Isabelle
  imports Complex_Main
begin

section \<open>JavaScript numbers\<close>

text \<open>
  The simulation computes on JavaScript numbers. They are modelled as the real numbers
  extended by \<open>Infinity\<close>, \<open>-Infinity\<close> and \<open>NaN\<close>: the special values follow the
  rules of the language (a division by zero, \<open>0 * Infinity\<close>, \<open>Infinity - Infinity\<close>,
  comparisons with \<open>NaN\<close>), while arithmetic on finite values is exact, so rounding and
  overflow of the 64-bit format are not part of the model. The two zeros are not
  distinguished: a zero divisor is taken as \<open>+0\<close>, which is what \<open>Math.hypot\<close> and a
  cancelling sum produce.
\<close>

datatype number = Fin real | PInf | NInf | NaN

fun num_neg :: "number \<Rightarrow> number" where
  "num_neg (Fin x) = Fin (- x)"
| "num_neg PInf = NInf"
| "num_neg NInf = PInf"
| "num_neg NaN = NaN"

fun num_add :: "number \<Rightarrow> number \<Rightarrow> number" where
  "num_add (Fin x) (Fin y) = Fin (x + y)"
| "num_add NaN _ = NaN"
| "num_add _ NaN = NaN"
| "num_add PInf NInf = NaN"
| "num_add NInf PInf = NaN"
| "num_add PInf _ = PInf"
| "num_add _ PInf = PInf"
| "num_add NInf _ = NInf"
| "num_add _ NInf = NInf"

definition num_sub :: "number \<Rightarrow> number \<Rightarrow> number" where
  "num_sub x y = num_add x (num_neg y)"

fun num_mul :: "number \<Rightarrow> number \<Rightarrow> number" where
  "num_mul (Fin x) (Fin y) = Fin (x * y)"
| "num_mul NaN _ = NaN"
| "num_mul _ NaN = NaN"
| "num_mul (Fin x) PInf = (if x = 0 then NaN else if 0 < x then PInf else NInf)"
| "num_mul (Fin x) NInf = (if x = 0 then NaN else if 0 < x then NInf else PInf)"
| "num_mul PInf (Fin y) = (if y = 0 then NaN else if 0 < y then PInf else NInf)"
| "num_mul NInf (Fin y) = (if y = 0 then NaN else if 0 < y then NInf else PInf)"
| "num_mul PInf PInf = PInf"
| "num_mul PInf NInf = NInf"
| "num_mul NInf PInf = NInf"
| "num_mul NInf NInf = PInf"

fun num_div :: "number \<Rightarrow> number \<Rightarrow> number" where
  "num_div (Fin x) (Fin y) =
     (if y \<noteq> 0 then Fin (x / y)
      else if x = 0 then NaN else if 0 < x then PInf else NInf)"
| "num_div NaN _ = NaN"
| "num_div _ NaN = NaN"
| "num_div (Fin x) PInf = Fin 0"
| "num_div (Fin x) NInf = Fin 0"
| "num_div PInf (Fin y) = (if 0 \<le> y then PInf else NInf)"
| "num_div NInf (Fin y) = (if 0 \<le> y then NInf else PInf)"
| "num_div PInf PInf = NaN"
| "num_div PInf NInf = NaN"
| "num_div NInf PInf = NaN"
| "num_div NInf NInf = NaN"

text \<open>\<open>x < y\<close>: false as soon as one side is \<open>NaN\<close>.\<close>

fun num_lt :: "number \<Rightarrow> number \<Rightarrow> bool" where
  "num_lt (Fin x) (Fin y) = (x < y)"
| "num_lt NaN _ = False"
| "num_lt _ NaN = False"
| "num_lt _ NInf = False"
| "num_lt PInf _ = False"
| "num_lt NInf _ = True"
| "num_lt _ PInf = True"

definition num_gt :: "number \<Rightarrow> number \<Rightarrow> bool" where
  "num_gt x y = num_lt y x"

text \<open>\<open>x === y\<close> on numbers: \<open>NaN\<close> is not equal to itself.\<close>

definition strict_eq :: "number \<Rightarrow> number \<Rightarrow> bool" where
  "strict_eq x y = (x \<noteq> NaN \<and> y \<noteq> NaN \<and> x = y)"

text \<open>Truthiness of a number, as \<open>||\<close> tests it: \<open>0\<close> and \<open>NaN\<close> are falsy.\<close>

definition truthy :: "number \<Rightarrow> bool" where
  "truthy x = (x \<noteq> NaN \<and> x \<noteq> Fin 0)"

text \<open>\<open>x % y\<close>: the remainder has the sign of the dividend.\<close>

definition trunc :: "real \<Rightarrow> real" where
  "trunc z = (if 0 \<le> z then of_int \<lfloor>z\<rfloor> else of_int \<lceil>z\<rceil>)"

fun num_mod :: "number \<Rightarrow> number \<Rightarrow> number" where
  "num_mod (Fin x) (Fin y) = (if y = 0 then NaN else Fin (x - y * trunc (x / y)))"
| "num_mod NaN _ = NaN"
| "num_mod _ NaN = NaN"
| "num_mod PInf _ = NaN"
| "num_mod NInf _ = NaN"
| "num_mod (Fin x) _ = Fin x"

fun Math_hypot :: "number \<Rightarrow> number \<Rightarrow> number" where
  "Math_hypot (Fin x) (Fin y) = Fin (sqrt (x\<^sup>2 + y\<^sup>2))"
| "Math_hypot PInf _ = PInf"
| "Math_hypot NInf _ = PInf"
| "Math_hypot _ PInf = PInf"
| "Math_hypot _ NInf = PInf"
| "Math_hypot NaN _ = NaN"
| "Math_hypot _ NaN = NaN"

fun Math_min :: "number \<Rightarrow> number \<Rightarrow> number" where
  "Math_min (Fin x) (Fin y) = Fin (min x y)"
| "Math_min NaN _ = NaN"
| "Math_min _ NaN = NaN"
| "Math_min NInf _ = NInf"
| "Math_min _ NInf = NInf"
| "Math_min PInf y = y"
| "Math_min x PInf = x"

fun Math_cos :: "number \<Rightarrow> number" where
  "Math_cos (Fin x) = Fin (cos x)"
| "Math_cos _ = NaN"

fun Math_sin :: "number \<Rightarrow> number" where
  "Math_sin (Fin x) = Fin (sin x)"
| "Math_sin _ = NaN"

definition Math_PI :: number where
  "Math_PI = Fin pi"

section \<open>Vec2\<close>

type_synonym Vec2 = "number \<times> number"

definition Vec2_add :: "Vec2 \<Rightarrow> Vec2 \<Rightarrow> Vec2" where
  "Vec2_add a b = (num_add (fst a) (fst b), num_add (snd a) (snd b))"

definition Vec2_sub :: "Vec2 \<Rightarrow> Vec2 \<Rightarrow> Vec2" where
  "Vec2_sub a b = (num_sub (fst a) (fst b), num_sub (snd a) (snd b))"

definition Vec2_scale :: "Vec2 \<Rightarrow> number \<Rightarrow> Vec2" where
  "Vec2_scale a s = (num_mul (fst a) s, num_mul (snd a) s)"

definition Vec2_length :: "Vec2 \<Rightarrow> number" where
  "Vec2_length a = Math_hypot (fst a) (snd a)"

definition Vec2_equal :: "Vec2 \<Rightarrow> Vec2 \<Rightarrow> bool" where
  "Vec2_equal a b = (strict_eq (fst a) (fst b) \<and> strict_eq (snd a) (snd b))"

section \<open>SimObject and FrozenSimObject\<close>

text \<open>
  One record holds the fields of both classes. \<open>originalPosition\<close> exists only in a
  \<open>FrozenSimObject\<close>, whose constructor always sets it: it is \<open>None\<close> for a plain
  \<open>SimObject\<close>. The readonly field \<open>frozen\<close> is fixed by the class, so it is read off
  the same field.
\<close>

record SimObject =
  position :: Vec2
  radius :: number
  mass :: number
  oldPosition :: Vec2
  accleration :: Vec2
  originalPosition :: "Vec2 option"

definition frozen :: "SimObject \<Rightarrow> bool" where
  "frozen obj = (originalPosition obj \<noteq> None)"

definition new_SimObject :: "Vec2 \<Rightarrow> number \<Rightarrow> number \<Rightarrow> SimObject" where
  "new_SimObject pos r m =
     \<lparr>position = pos, radius = r, mass = m, oldPosition = pos,
      accleration = (Fin 0, Fin 0), originalPosition = None\<rparr>"

text \<open>The default of the third parameter: \<open>mass = radius * radius\<close>.\<close>

definition new_SimObject2 :: "Vec2 \<Rightarrow> number \<Rightarrow> SimObject" where
  "new_SimObject2 pos r = new_SimObject pos r (num_mul r r)"

definition new_FrozenSimObject :: "Vec2 \<Rightarrow> number \<Rightarrow> SimObject" where
  "new_FrozenSimObject pos r =
     (let obj = new_SimObject2 pos r in obj\<lparr>originalPosition := Some (position obj)\<rparr>)"

text \<open>\<open>updatePosition\<close>, dispatched on the class: the override of the frozen class
  ignores \<open>dt\<close>.\<close>

definition updatePosition :: "number \<Rightarrow> SimObject \<Rightarrow> SimObject" where
  "updatePosition dt obj =
     (case originalPosition obj of
        None \<Rightarrow>
          (let velocity = Vec2_sub (position obj) (oldPosition obj);
               obj1 = obj\<lparr>oldPosition := position obj\<rparr>;
               obj2 = obj1\<lparr>position :=
                        Vec2_add (Vec2_add (position obj1) velocity)
                                 (Vec2_scale (accleration obj1) (num_mul dt dt))\<rparr>
           in obj2\<lparr>accleration := (Fin 0, Fin 0)\<rparr>)
      | Some p \<Rightarrow> obj\<lparr>position := p, oldPosition := p\<rparr>)"

definition accelerate :: "Vec2 \<Rightarrow> SimObject \<Rightarrow> SimObject" where
  "accelerate acc obj = obj\<lparr>accleration := Vec2_add (accleration obj) acc\<rparr>"

section \<open>Link\<close>

text \<open>
  A link holds references to two objects of the simulation, and the objects are
  mutated in place. The store is the simulation's array of objects and a reference is
  an index into it, so that two links (or the two ends of one link) naming the same
  object see each other's writes.
\<close>

record Link =
  link_a :: nat
  link_b :: nat
  target :: number

definition set_position :: "nat \<Rightarrow> Vec2 \<Rightarrow> SimObject list \<Rightarrow> SimObject list" where
  "set_position i p objs = objs[i := (objs ! i)\<lparr>position := p\<rparr>]"

text \<open>The first four statements of \<open>apply\<close>: \<open>axis\<close>, \<open>dist\<close>, \<open>normal\<close> and the
  \<open>delta\<close> they give.\<close>

definition link_delta :: "Link \<Rightarrow> SimObject list \<Rightarrow> Vec2" where
  "link_delta l objs =
     (let axis = Vec2_sub (position (objs ! link_b l)) (position (objs ! link_a l));
          dist = Vec2_length axis;
          normal = Vec2_scale axis (num_div (Fin 1) dist)
      in Vec2_scale normal (num_sub dist (target l)))"

definition Link_apply :: "Link \<Rightarrow> SimObject list \<Rightarrow> SimObject list" where
  "Link_apply l objs =
     (let ia = link_a l; ib = link_b l;
          delta = link_delta l objs
      in if frozen (objs ! ia) then
           set_position ib (Vec2_sub (position (objs ! ib)) delta) objs
         else if frozen (objs ! ib) then
           set_position ia (Vec2_add (position (objs ! ia)) delta) objs
         else
           (let deltaA = Vec2_scale delta
                  (num_div (mass (objs ! ia)) (num_add (mass (objs ! ia)) (mass (objs ! ib))));
                deltaB = Vec2_sub delta deltaA;
                objs1 = set_position ia (Vec2_add (position (objs ! ia)) deltaB) objs
            in set_position ib (Vec2_sub (position (objs1 ! ib)) deltaA) objs1))"

section \<open>Simulation\<close>

datatype SimType = DoublePendulums | LongPendulum | BoundedObjects

datatype CanvasRenderingContext2D = Context2D

text \<open>Of the canvas element the simulation reads its size and asks for its 2d context
  (\<open>getContext\<close> answers \<open>null\<close> when there is none).\<close>

record HTMLCanvasElement =
  width :: number
  height :: number
  getContext2d :: "CanvasRenderingContext2D option"

text \<open>\<open>sim_id\<close> and \<open>sim_t\<close> are the private fields \<open>id\<close> and \<open>t\<close>; \<open>None\<close> is
  \<open>undefined\<close>, also for \<open>canvas\<close> and \<open>ctx\<close> before they are assigned.\<close>

record Simulation =
  simType :: SimType
  canvas :: "HTMLCanvasElement option"
  ctx :: "CanvasRenderingContext2D option"
  playing :: bool
  sim_id :: "nat option"
  sim_t :: "number option"
  bounded :: bool
  collisions :: bool
  objects :: "SimObject list"
  links :: "Link list"
  gravity :: Vec2

text \<open>A read of a property of \<open>undefined\<close> throws a \<open>TypeError\<close>. A throw leaves the
  simulation as the statements before it made it, so it carries that state.\<close>

datatype error = TypeError

type_synonym result = "(error \<times> Simulation) + Simulation"

definition state_of :: "result \<Rightarrow> Simulation" where
  "state_of r = (case r of Inl (e, s) \<Rightarrow> s | Inr s \<Rightarrow> s)"

subsection \<open>The constructor\<close>

definition empty_Simulation :: "SimType \<Rightarrow> Simulation" where
  "empty_Simulation st =
     \<lparr>simType = st, canvas = None, ctx = None, playing = False, sim_id = None,
      sim_t = None, bounded = False, collisions = False, objects = [], links = [],
      gravity = (Fin 0, Fin 1000)\<rparr>"

definition push_object :: "SimObject \<Rightarrow> Simulation \<Rightarrow> Simulation" where
  "push_object obj s = s\<lparr>objects := objects s @ [obj]\<rparr>"

definition push_link :: "Link \<Rightarrow> Simulation \<Rightarrow> Simulation" where
  "push_link l s = s\<lparr>links := links s @ [l]\<rparr>"

text \<open>The body of the loop that builds the double pendulums, for the index \<open>i\<close>.\<close>

definition double_pendulum :: "nat \<Rightarrow> Simulation \<Rightarrow> Simulation" where
  "double_pendulum i s =
     (let count = Fin 10;
          diff = num_div (num_div Math_PI (Fin 10000)) count;
          angle = num_mul (num_add (num_mul (Fin (real i)) diff) (num_div (Fin 7) (Fin 5))) Math_PI;
          x1 = num_add (Fin 300) (num_mul (Fin 100) (Math_cos angle));
          y1 = num_add (Fin 200) (num_mul (Fin 100) (Math_sin angle));
          obj = length (objects s);
          s1 = push_object (new_SimObject2 (x1, y1) (Fin 5)) s;
          x2 = num_add x1 (num_mul (Fin 100) (Math_cos angle));
          y2 = num_add y1 (num_mul (Fin 100) (Math_sin angle));
          obj2 = length (objects s1);
          s2 = push_object (new_SimObject2 (x2, y2) (Fin 5)) s1;
          s3 = push_link \<lparr>link_a = 0, link_b = obj, target = Fin 100\<rparr> s2
      in push_link \<lparr>link_a = obj, link_b = obj2, target = Fin 100\<rparr> s3)"

text \<open>The body of the loop that builds the long pendulum.\<close>

definition long_pendulum :: "nat \<Rightarrow> Simulation \<Rightarrow> Simulation" where
  "long_pendulum i s =
     (let diff = Fin 0; len = Fin 50;
          p = position (last (objects s));
          angle = num_mul (num_add (num_mul (Fin (real i)) diff) (num_div (Fin 6) (Fin 5))) Math_PI;
          x = num_add (fst p) (num_mul len (Math_cos angle));
          y = num_add (snd p) (num_mul len (Math_sin angle));
          obj = length (objects s);
          s1 = push_object (new_SimObject2 (x, y) (Fin 5)) s
      in push_link \<lparr>link_a = length (objects s1) - 2, link_b = obj, target = len\<rparr> s1)"

definition new_Simulation :: "SimType \<Rightarrow> Simulation" where
  "new_Simulation st =
     (let s = empty_Simulation st in
      case st of
        DoublePendulums \<Rightarrow>
          fold double_pendulum [0..<10]
            (push_object (new_FrozenSimObject (Fin 300, Fin 200) (Fin 5)) s)
      | LongPendulum \<Rightarrow>
          (let s1 = fold long_pendulum [1..<10]
                      (push_object (new_FrozenSimObject (Fin 300, Fin 200) (Fin 5)) s);
               n = length (objects s1)
           in s1\<lparr>objects := (objects s1)[n - 1 := (objects s1 ! (n - 1))\<lparr>mass := Fin 10000\<rparr>]\<rparr>)
      | BoundedObjects \<Rightarrow> s\<lparr>bounded := True, collisions := True\<rparr>)"

subsection \<open>One substep\<close>

definition applyGravity :: "Simulation \<Rightarrow> Simulation" where
  "applyGravity s = s\<lparr>objects := map (accelerate (gravity s)) (objects s)\<rparr>"

text \<open>The body of the loop of \<open>applyConstraint\<close>, for the centre \<open>pos\<close>.\<close>

definition constrain :: "Vec2 \<Rightarrow> SimObject \<Rightarrow> SimObject" where
  "constrain pos obj =
     (let r = Fin 250;
          distance = Vec2_length (Vec2_sub (position obj) pos)
      in if num_gt distance (num_sub r (radius obj)) then
           (let direction = Vec2_sub (position obj) pos;
                normal = Vec2_scale direction (num_div (Fin 1) distance)
            in obj\<lparr>position := Vec2_add pos (Vec2_scale normal (num_sub r (radius obj)))\<rparr>)
         else obj)"

text \<open>\<open>this.canvas.width\<close> is read first: without a canvas it throws before any object
  is touched.\<close>

definition applyConstraint :: "Simulation \<Rightarrow> result" where
  "applyConstraint s =
     (case canvas s of
        None \<Rightarrow> Inl (TypeError, s)
      | Some cv \<Rightarrow>
          Inr (s\<lparr>objects :=
                 map (constrain (num_div (width cv) (Fin 2), num_div (height cv) (Fin 2)))
                     (objects s)\<rparr>))"

text \<open>The body of the inner loop of \<open>solveCollisions\<close>, for the pair \<open>i\<close>, \<open>j\<close>.\<close>

definition collide :: "nat \<Rightarrow> nat \<Rightarrow> SimObject list \<Rightarrow> SimObject list" where
  "collide i j objs =
     (let axis = Vec2_sub (position (objs ! i)) (position (objs ! j));
          distance = Vec2_length axis
      in if strict_eq distance (Fin 0) then objs
         else
           (let minDistance = num_add (radius (objs ! i)) (radius (objs ! j))
            in if num_lt distance minDistance then
                 (let normal = Vec2_scale axis (num_div (Fin 1) distance);
                      delta = Vec2_scale normal (num_sub minDistance distance)
                  in if frozen (objs ! i) then
                       set_position j (Vec2_sub (position (objs ! j)) delta) objs
                     else if frozen (objs ! j) then
                       set_position i (Vec2_add (position (objs ! i)) delta) objs
                     else
                       (let deltaA = Vec2_scale delta
                              (num_div (mass (objs ! i))
                                 (num_add (mass (objs ! i)) (mass (objs ! j))));
                            deltaB = Vec2_sub delta deltaA;
                            objs1 = set_position i (Vec2_add (position (objs ! i)) deltaB) objs
                        in set_position j (Vec2_sub (position (objs1 ! j)) deltaA) objs1))
               else objs))"

definition solveCollisions :: "Simulation \<Rightarrow> Simulation" where
  "solveCollisions s =
     s\<lparr>objects :=
         fold (\<lambda>i objs. fold (collide i) [Suc i..<length objs] objs)
              [0..<length (objects s)] (objects s)\<rparr>"

definition applyLinks :: "Simulation \<Rightarrow> Simulation" where
  "applyLinks s = s\<lparr>objects := fold Link_apply (links s) (objects s)\<rparr>"

definition updatePositions :: "number \<Rightarrow> Simulation \<Rightarrow> Simulation" where
  "updatePositions dt s = s\<lparr>objects := map (updatePosition dt) (objects s)\<rparr>"

definition update :: "number \<Rightarrow> Simulation \<Rightarrow> result" where
  "update dt s =
     (let s1 = applyGravity s in
      case (if bounded s1 then applyConstraint s1 else Inr s1) of
        Inl e \<Rightarrow> Inl e
      | Inr s2 \<Rightarrow>
          (let s3 = (if collisions s2 then solveCollisions s2 else s2);
               s4 = applyLinks s3
           in Inr (updatePositions dt s4)))"

text \<open>A sequence of \<open>update\<close> calls, one for each \<open>dt\<close> of the list, stopped by a throw.\<close>

fun updates :: "number list \<Rightarrow> Simulation \<Rightarrow> result" where
  "updates [] s = Inr s"
| "updates (dt # dts) s =
     (case update dt s of Inl e \<Rightarrow> Inl e | Inr s' \<Rightarrow> updates dts s')"

subsection \<open>What a substep may change\<close>

text \<open>Two states of one scene: they differ in the objects alone, which are as many
  and of the same classes, each anchored one with the same \<open>originalPosition\<close>.\<close>

definition same_scene :: "Simulation \<Rightarrow> Simulation \<Rightarrow> bool" where
  "same_scene s s' \<longleftrightarrow>
     s' = s\<lparr>objects := objects s'\<rparr>
   \<and> map originalPosition (objects s') = map originalPosition (objects s)"

subsection \<open>The tick\<close>

text \<open>
  The browser supplies two values to a tick: what \<open>Math.random()\<close> returns and the
  handle that \<open>requestAnimationFrame\<close> returns. What is drawn is not modelled, only
  that drawing needs the context and the canvas.
\<close>

record Env =
  Math_random :: number
  raf_handle :: nat

definition draw :: "Simulation \<Rightarrow> result" where
  "draw s =
     (case ctx s of
        None \<Rightarrow> Inl (TypeError, s)
      | Some c \<Rightarrow> (case canvas s of None \<Rightarrow> Inl (TypeError, s) | Some cv \<Rightarrow> Inr s))"

definition substeps :: nat where
  "substeps = 1000"

text \<open>\<open>for (let i = 0; i < substeps; i++) this.update(subDt)\<close>, from the index \<open>i\<close> on.\<close>

function substeps_loop :: "nat \<Rightarrow> nat \<Rightarrow> number \<Rightarrow> Simulation \<Rightarrow> result" where
  "substeps_loop i n subDt s =
     (if i < n then
        (case update subDt s of
           Inl e \<Rightarrow> Inl e
         | Inr s' \<Rightarrow> substeps_loop (Suc i) n subDt s')
      else Inr s)"
  by pat_completeness auto
termination
  by (relation "measure (\<lambda>(i, n, subDt, s). n - i)") auto

declare substeps_loop.simps [simp del]

text \<open>\<open>dt = (t - (this.t || t)) / 1000\<close>.\<close>

definition step_dt :: "Simulation \<Rightarrow> number \<Rightarrow> number" where
  "step_dt s t =
     num_div (num_sub t (case sim_t s of
                           None \<Rightarrow> t
                         | Some t0 \<Rightarrow> if truthy t0 then t0 else t))
             (Fin 1000)"

definition step_subDt :: "number \<Rightarrow> number" where
  "step_subDt dt = num_div (Math_min dt (num_div (Fin 1) (Fin 50))) (Fin (real substeps))"

definition schedule :: "Env \<Rightarrow> Simulation \<Rightarrow> Simulation" where
  "schedule env s = (if playing s then s\<lparr>sim_id := Some (raf_handle env)\<rparr> else s)"

definition spawn :: "Env \<Rightarrow> number \<Rightarrow> number \<Rightarrow> Simulation \<Rightarrow> Simulation" where
  "spawn env t dt s =
     (if simType s = BoundedObjects then
        (if num_lt (num_mod t (Fin 500)) (num_mul dt (Fin 1000)) \<and> length (objects s) < 100
         then push_object
                (new_SimObject2 (Fin 350, Fin 100)
                   (num_add (num_mul (Math_random env) (Fin 20)) (Fin 10))) s
         else s)
      else s)"

text \<open>What \<open>step\<close> does after the loop of substeps: draw, schedule the next frame,
  spawn.\<close>

definition step_finish :: "Env \<Rightarrow> number \<Rightarrow> number \<Rightarrow> result \<Rightarrow> result" where
  "step_finish env t dt r =
     (case r of
        Inl e \<Rightarrow> Inl e
      | Inr s2 \<Rightarrow>
          (case draw s2 of
             Inl e \<Rightarrow> Inl e
           | Inr s3 \<Rightarrow> Inr (spawn env t dt (schedule env s3))))"

definition step :: "Env \<Rightarrow> number \<Rightarrow> Simulation \<Rightarrow> result" where
  "step env t s =
     (let dt = step_dt s t;
          s1 = s\<lparr>sim_t := Some t\<rparr>;
          subDt = step_subDt dt
      in step_finish env t dt (substeps_loop 0 substeps subDt s1))"

definition start :: "Env \<Rightarrow> HTMLCanvasElement option \<Rightarrow> Simulation \<Rightarrow> result" where
  "start env c s =
     (let s1 = (case c of
                  None \<Rightarrow> s
                | Some cv \<Rightarrow> s\<lparr>canvas := Some cv, ctx := getContext2d cv\<rparr>)
      in step env (Fin 0) (s1\<lparr>playing := True\<rparr>))"



section \<open>Example scenes\<close>

text \<open>Two free objects two units apart, the first three times as heavy as the second,
  two anchored objects at the same places, and a link of rest length 1 between the
  objects 0 and 1 of a scene.\<close>

definition free_a :: SimObject where
  "free_a = new_SimObject (Fin 0, Fin 0) (Fin 5) (Fin 3)"

definition free_b :: SimObject where
  "free_b = new_SimObject (Fin 2, Fin 0) (Fin 5) (Fin 1)"

definition anchor_a :: SimObject where
  "anchor_a = new_FrozenSimObject (Fin 0, Fin 0) (Fin 5)"

definition anchor_b :: SimObject where
  "anchor_b = new_FrozenSimObject (Fin 2, Fin 0) (Fin 5)"

definition link01 :: Link where
  "link01 = \<lparr>link_a = 0, link_b = 1, target = Fin 1\<rparr>"


text \<open>A simulation with no canvas, one anchored and one free object and a link between
  them; the same with a canvas attached and a previous tick at 8 ms; and the values
  the browser hands to a tick.\<close>

definition pendulum :: Simulation where
  "pendulum = (empty_Simulation LongPendulum)\<lparr>objects := [anchor_a, free_b], links := [link01]\<rparr>"

definition running :: Simulation where
  "running =
     pendulum\<lparr>canvas := Some \<lparr>width = Fin 600, height = Fin 600, getContext2d = Some Context2D\<rparr>,
              ctx := Some Context2D, playing := True, sim_t := Some (Fin 8)\<rparr>"

definition env0 :: Env where
  "env0 = \<lparr>Math_random = Fin 0, raf_handle = 1\<rparr>"

section \<open>Vectors of finite numbers\<close>

lemmas vec_defs = Vec2_add_def Vec2_sub_def Vec2_scale_def Vec2_length_def num_sub_def

lemmas example_defs = free_a_def free_b_def anchor_a_def anchor_b_def link01_def
  new_SimObject_def new_SimObject2_def new_FrozenSimObject_def frozen_def

lemma Vec2_sub_NaN: "Vec2_sub p (NaN, NaN) = (NaN, NaN)"
  by (cases p; cases "fst p"; cases "snd p") (simp_all add: vec_defs)

lemma Vec2_add_NaN: "Vec2_add p (NaN, NaN) = (NaN, NaN)"
  by (cases p; cases "fst p"; cases "snd p") (simp_all add: vec_defs)

lemma Vec2_scale_NaN: "Vec2_scale (NaN, NaN) q = (NaN, NaN)"
  by (simp add: vec_defs)




section \<open>Link.apply\<close>

lemma set_position_length [simp]: "length (set_position i p objs) = length objs"
  by (simp add: set_position_def)









text \<open>
  C3, as the code has it. \<open>apply\<close> tests \<open>a.frozen\<close> first and never looks at \<open>b.frozen\<close>
  in that branch: with both ends anchored (two distinct objects) it leaves \<open>A\<close> and every
  other object as they are and changes of \<open>B\<close> the position alone, subtracting \<open>delta\<close>
  from it. The next \<open>updatePosition\<close> of \<open>B\<close> gives what it would have given without
  the link.
\<close>

theorem Link_apply_both_frozen:
  assumes "frozen (objs ! link_a l)" "frozen (objs ! link_b l)"
      and "link_a l < length objs" "link_b l < length objs" "link_a l \<noteq> link_b l"
  shows "length (Link_apply l objs) = length objs
       \<and> Link_apply l objs ! link_b l =
           (objs ! link_b l)\<lparr>position :=
              Vec2_sub (position (objs ! link_b l)) (link_delta l objs)\<rparr>
       \<and> (\<forall>k. k \<noteq> link_b l \<longrightarrow> Link_apply l objs ! k = objs ! k)
       \<and> (\<forall>dt. updatePosition dt (Link_apply l objs ! link_b l)
                 = updatePosition dt (objs ! link_b l))"
  using assms
  by (auto simp add: Link_apply_def Let_def set_position_def updatePosition_def frozen_def)

theorem Link_apply_both_frozen_witness:
  "frozen anchor_a \<and> frozen anchor_b
 \<and> Link_apply link01 [anchor_a, anchor_b] ! 0 = anchor_a
 \<and> Link_apply link01 [anchor_a, anchor_b] ! 1 = anchor_b\<lparr>position := (Fin 1, Fin 0)\<rparr>
 \<and> updatePosition (Fin 1) (Link_apply link01 [anchor_a, anchor_b] ! 1) = anchor_b"
  using Link_apply_both_frozen [where objs = "[anchor_a, anchor_b]" and l = link01]
  by (simp add: example_defs link_delta_def Let_def vec_defs updatePosition_def)

text \<open>C3 as the specification words it: no mutation. The second anchored end of the
  example link is moved from \<open>(2, 0)\<close> to \<open>(1, 0)\<close>.\<close>

theorem Link_apply_both_frozen_counterexample:
  "frozen ([anchor_a, anchor_b] ! 0) \<and> frozen ([anchor_a, anchor_b] ! 1)
 \<and> position ([anchor_a, anchor_b] ! 1) = (Fin 2, Fin 0)
 \<and> position (Link_apply link01 [anchor_a, anchor_b] ! 1) = (Fin 1, Fin 0)"
  by (simp add: example_defs Link_apply_def link_delta_def set_position_def Let_def vec_defs)

text \<open>
  C4. When the two ends of a link are at the same finite place, \<open>dist\<close> is \<open>0\<close>, the
  division \<open>1 / dist\<close> is made all the same and gives \<open>Infinity\<close>, \<open>delta\<close> is
  \<open>(NaN, NaN)\<close>, and every position that \<open>apply\<close> writes is \<open>(NaN, NaN)\<close>: that of \<open>B\<close>
  when \<open>A\<close> is anchored, that of \<open>A\<close> when only \<open>B\<close> is, both when both are free. For the
  same two objects the collision loop leaves the whole array as it is.
\<close>

theorem coincident_link_and_collision:
  assumes "link_a l < length objs" "link_b l < length objs"
      and "position (objs ! link_a l) = (Fin x, Fin y)"
      and "position (objs ! link_b l) = (Fin x, Fin y)"
  shows "Vec2_length (Vec2_sub (position (objs ! link_b l)) (position (objs ! link_a l))) = Fin 0
       \<and> num_div (Fin 1) (Fin 0) = PInf
       \<and> link_delta l objs = (NaN, NaN)
       \<and> (frozen (objs ! link_a l) \<longrightarrow>
            position (Link_apply l objs ! link_b l) = (NaN, NaN))
       \<and> (\<not> frozen (objs ! link_a l) \<and> frozen (objs ! link_b l) \<longrightarrow>
            position (Link_apply l objs ! link_a l) = (NaN, NaN))
       \<and> (\<not> frozen (objs ! link_a l) \<and> \<not> frozen (objs ! link_b l) \<longrightarrow>
            position (Link_apply l objs ! link_a l) = (NaN, NaN)
          \<and> position (Link_apply l objs ! link_b l) = (NaN, NaN))
       \<and> collide (link_a l) (link_b l) objs = objs"
proof -
  have l0: "Vec2_length (Vec2_sub (position (objs ! link_b l)) (position (objs ! link_a l))) = Fin 0"
    using assms by (simp add: vec_defs)
  have d: "link_delta l objs = (NaN, NaN)"
    using assms by (simp add: link_delta_def Let_def vec_defs)
  have fa: "frozen (objs ! link_a l) \<longrightarrow> position (Link_apply l objs ! link_b l) = (NaN, NaN)"
    using assms(1,2) by (simp add: Link_apply_def Let_def set_position_def d Vec2_sub_NaN)
  have fb: "\<not> frozen (objs ! link_a l) \<and> frozen (objs ! link_b l) \<longrightarrow>
              position (Link_apply l objs ! link_a l) = (NaN, NaN)"
    using assms(1,2) by (simp add: Link_apply_def Let_def set_position_def d Vec2_add_NaN)
  have ff: "\<not> frozen (objs ! link_a l) \<and> \<not> frozen (objs ! link_b l) \<longrightarrow>
              position (Link_apply l objs ! link_a l) = (NaN, NaN)
            \<and> position (Link_apply l objs ! link_b l) = (NaN, NaN)"
    using assms(1,2)
    by (cases "link_a l = link_b l")
       (simp_all add: Link_apply_def Let_def set_position_def d
          Vec2_sub_NaN Vec2_add_NaN Vec2_scale_NaN)
  have co: "collide (link_a l) (link_b l) objs = objs"
    using assms by (simp add: collide_def Let_def vec_defs strict_eq_def)
  from l0 d fa fb ff co show ?thesis by simp
qed

theorem coincident_link_and_collision_witness:
  "position ([free_a, free_a] ! 0) = position ([free_a, free_a] ! 1)
 \<and> position (Link_apply link01 [free_a, free_a] ! 0) = (NaN, NaN)
 \<and> position (Link_apply link01 [free_a, free_a] ! 1) = (NaN, NaN)
 \<and> collide 0 1 [free_a, free_a] = [free_a, free_a]"
  using coincident_link_and_collision [where objs = "[free_a, free_a]" and l = link01
           and x = 0 and y = 0]
  by (simp add: example_defs)

section \<open>updatePosition\<close>



section \<open>Constructed simulations\<close>

lemma fold_keeps:
  assumes "\<And>x s. g (f x s) = g s"
  shows "g (fold f xs s) = g s"
  by (induction xs arbitrary: s) (simp_all add: assms)

lemma long_pendulum_keeps:
  "canvas (long_pendulum i s) = canvas s" "ctx (long_pendulum i s) = ctx s"
  "bounded (long_pendulum i s) = bounded s" "sim_t (long_pendulum i s) = sim_t s"
  "playing (long_pendulum i s) = playing s"
  by (simp_all add: long_pendulum_def Let_def push_object_def push_link_def)

lemma new_LongPendulum_fields:
  "canvas (new_Simulation LongPendulum) = None" "ctx (new_Simulation LongPendulum) = None"
  "\<not> bounded (new_Simulation LongPendulum)" "sim_t (new_Simulation LongPendulum) = None"
  "\<not> playing (new_Simulation LongPendulum)"
  by (simp_all add: new_Simulation_def Let_def fold_keeps long_pendulum_keeps
        push_object_def empty_Simulation_def)

lemma new_BoundedObjects_eq:
  "new_Simulation BoundedObjects =
     \<lparr>simType = BoundedObjects, canvas = None, ctx = None, playing = False, sim_id = None,
      sim_t = None, bounded = True, collisions = True, objects = [], links = [],
      gravity = (Fin 0, Fin 1000)\<rparr>"
  by (simp add: new_Simulation_def empty_Simulation_def)

lemma fold_invariant:
  assumes "\<And>x s. Q s \<Longrightarrow> Q (f x s)" and "Q s"
  shows "Q (fold f xs s)"
  using assms(2) by (induction xs arbitrary: s) (simp_all add: assms(1))

text \<open>Every anchored object of a constructed simulation is at its \<open>originalPosition\<close>,
  and was there a substep before.\<close>

lemma constructed_anchors_at_home:
  assumes "obj \<in> set (objects (new_Simulation st))" and "originalPosition obj = Some p"
  shows "position obj = p \<and> oldPosition obj = p"
proof -
  define home where "home = (\<lambda>obj :: SimObject. \<forall>p. originalPosition obj = Some p \<longrightarrow>
                                 position obj = p \<and> oldPosition obj = p)"
  define Q where "Q = (\<lambda>s :: Simulation. \<forall>obj \<in> set (objects s). home obj)"
  have free: "home (new_SimObject2 pos r)" for pos r
    by (simp add: home_def new_SimObject2_def new_SimObject_def)
  have anch: "home (new_FrozenSimObject pos r)" for pos r
    by (simp add: home_def new_FrozenSimObject_def new_SimObject2_def new_SimObject_def Let_def)
  have push: "Q (push_object o1 s)" if "Q s" "home o1" for o1 s
    using that by (simp add: Q_def push_object_def)
  have lnk: "Q (push_link l s)" if "Q s" for l s
    using that by (simp add: Q_def push_link_def)
  have dp: "Q (double_pendulum i s)" if "Q s" for i s
    using that by (simp add: double_pendulum_def Let_def push lnk free)
  have lp: "Q (long_pendulum i s)" if "Q s" for i s
    using that by (simp add: long_pendulum_def Let_def push lnk free)
  have e: "Q (empty_Simulation st)"
    by (simp add: Q_def empty_Simulation_def)
  have start: "Q (push_object (new_FrozenSimObject (Fin 300, Fin 200) (Fin 5)) (empty_Simulation st))"
    by (rule push[OF e anch])
  have heavy: "Q (s\<lparr>objects := (objects s)[n := (objects s ! n)\<lparr>mass := m\<rparr>]\<rparr>)" if "Q s" for s n m
  proof -
    have "home v" if "v \<in> set ((objects s)[n := (objects s ! n)\<lparr>mass := m\<rparr>])" for v
    proof (cases "n < length (objects s)")
      case True
      then have "home (objects s ! n)" using \<open>Q s\<close> by (simp add: Q_def)
      then have "home ((objects s ! n)\<lparr>mass := m\<rparr>)" by (simp add: home_def)
      moreover have "v \<in> insert ((objects s ! n)\<lparr>mass := m\<rparr>) (set (objects s))"
        using that set_update_subset_insert by fastforce
      ultimately show ?thesis using \<open>Q s\<close> by (auto simp add: Q_def)
    next
      case False
      then have "(objects s)[n := (objects s ! n)\<lparr>mass := m\<rparr>] = objects s"
        by (simp add: not_less list_update_beyond)
      with that \<open>Q s\<close> show ?thesis by (simp add: Q_def)
    qed
    then show ?thesis by (simp add: Q_def)
  qed
  have "Q (new_Simulation st)"
  proof (cases st)
    case DoublePendulums
    have "Q (fold double_pendulum [0..<10]
            (push_object (new_FrozenSimObject (Fin 300, Fin 200) (Fin 5)) (empty_Simulation st)))"
      by (rule fold_invariant[where Q = Q, OF dp start])
    with DoublePendulums show ?thesis by (simp add: new_Simulation_def)
  next
    case LongPendulum
    have "Q (fold long_pendulum [1..<10]
            (push_object (new_FrozenSimObject (Fin 300, Fin 200) (Fin 5)) (empty_Simulation st)))"
      by (rule fold_invariant[where Q = Q, OF lp start])
    from heavy[OF this] LongPendulum show ?thesis by (simp add: new_Simulation_def Let_def)
  next
    case BoundedObjects
    then show ?thesis by (simp add: new_Simulation_def Q_def empty_Simulation_def)
  qed
  then have "\<forall>obj \<in> set (objects (new_Simulation st)). home obj" by (simp only: Q_def)
  from bspec[OF this assms(1)] have "home obj" .
  with assms(2) show ?thesis unfolding home_def by blast
qed

section \<open>Substeps\<close>

lemma list_update_same_field:
  assumes "f v = f (xs ! i)"
  shows "map f (xs[i := v]) = map f xs"
proof (cases "i < length xs")
  case True
  with assms show ?thesis by (simp add: map_update list_update_same_conv)
next
  case False
  then have "xs[i := v] = xs" by (simp add: not_less list_update_beyond)
  then show ?thesis by simp
qed

lemma set_position_orig [simp]:
  "map originalPosition (set_position i p objs) = map originalPosition objs"
  unfolding set_position_def by (rule list_update_same_field) simp

lemma Link_apply_orig [simp]:
  "map originalPosition (Link_apply l objs) = map originalPosition objs"
  by (simp add: Link_apply_def Let_def)

lemma collide_orig [simp]:
  "map originalPosition (collide i j objs) = map originalPosition objs"
  by (simp add: collide_def Let_def)

lemma fold_orig:
  assumes "\<And>x objs. map originalPosition (f x objs) = map originalPosition objs"
  shows "map originalPosition (fold f xs objs) = map originalPosition objs"
  by (induction xs arbitrary: objs) (simp_all add: assms)

lemma accelerate_orig [simp]: "originalPosition (accelerate g obj) = originalPosition obj"
  by (simp add: accelerate_def)

lemma constrain_orig [simp]: "originalPosition (constrain c obj) = originalPosition obj"
  by (simp add: constrain_def Let_def)

lemma updatePosition_orig [simp]: "originalPosition (updatePosition dt obj) = originalPosition obj"
  by (simp add: updatePosition_def Let_def split: option.splits)

lemma same_scene_refl [simp]: "same_scene s s"
  by (simp add: same_scene_def)

lemma same_scene_trans: "same_scene s s1 \<Longrightarrow> same_scene s1 s2 \<Longrightarrow> same_scene s s2"
  unfolding same_scene_def by (metis Simulation.update_convs(9) Simulation.surjective Simulation.select_convs)

lemma same_scene_fields:
  assumes "same_scene s s'"
  shows "canvas s' = canvas s" "ctx s' = ctx s" "playing s' = playing s" "sim_id s' = sim_id s"
    "sim_t s' = sim_t s" "bounded s' = bounded s" "collisions s' = collisions s"
    "simType s' = simType s" "links s' = links s" "gravity s' = gravity s"
    "length (objects s') = length (objects s)"
    "map originalPosition (objects s') = map originalPosition (objects s)"
proof -
  from assms have e: "s' = s\<lparr>objects := objects s'\<rparr>"
    and m: "map originalPosition (objects s') = map originalPosition (objects s)"
    by (simp_all add: same_scene_def)
  show "canvas s' = canvas s" by (subst e) simp
  show "ctx s' = ctx s" by (subst e) simp
  show "playing s' = playing s" by (subst e) simp
  show "sim_id s' = sim_id s" by (subst e) simp
  show "sim_t s' = sim_t s" by (subst e) simp
  show "bounded s' = bounded s" by (subst e) simp
  show "collisions s' = collisions s" by (subst e) simp
  show "simType s' = simType s" by (subst e) simp
  show "links s' = links s" by (subst e) simp
  show "gravity s' = gravity s" by (subst e) simp
  show "map originalPosition (objects s') = map originalPosition (objects s)" by (rule m)
  from m show "length (objects s') = length (objects s)" by (rule map_eq_imp_length_eq)
qed

lemma same_scene_applyGravity [simp]: "same_scene s (applyGravity s)"
  by (simp add: same_scene_def applyGravity_def comp_def)

lemma same_scene_solveCollisions [simp]: "same_scene s (solveCollisions s)"
  by (simp add: same_scene_def solveCollisions_def fold_orig)

lemma same_scene_applyLinks [simp]: "same_scene s (applyLinks s)"
  by (simp add: same_scene_def applyLinks_def fold_orig)

lemma same_scene_updatePositions [simp]: "same_scene s (updatePositions dt s)"
  by (simp add: same_scene_def updatePositions_def comp_def)

lemma same_scene_applyConstraint: "same_scene s (state_of (applyConstraint s))"
  by (simp add: same_scene_def applyConstraint_def state_of_def comp_def split: option.splits)

lemma applyConstraint_cases:
  "(canvas s = None \<and> applyConstraint s = Inl (TypeError, s))
 \<or> (canvas s \<noteq> None \<and> (\<exists>s'. applyConstraint s = Inr s' \<and> same_scene s s'))"
  by (auto simp add: same_scene_def applyConstraint_def comp_def split: option.splits)

text \<open>The two ways an \<open>update\<close> ends.\<close>

lemma update_cases:
  "(bounded s \<and> canvas s = None \<and> update dt s = Inl (TypeError, applyGravity s))
 \<or> ((bounded s \<longrightarrow> canvas s \<noteq> None) \<and> (\<exists>s'. update dt s = Inr s' \<and> same_scene s s'
       \<and> (\<forall>i p. i < length (objects s) \<and> originalPosition (objects s ! i) = Some p \<longrightarrow>
             position (objects s' ! i) = p \<and> oldPosition (objects s' ! i) = p)))"
proof -
  let ?s1 = "applyGravity s"
  have g: "same_scene s ?s1" by simp
  note gf = same_scene_fields[OF g]
  show ?thesis
  proof (cases "bounded s \<and> canvas s = None")
    case True
    then have "update dt s = Inl (TypeError, ?s1)"
      using gf by (simp add: update_def Let_def applyConstraint_def)
    with True show ?thesis by simp
  next
    case False
    define s2 where "s2 = (if bounded ?s1 then state_of (applyConstraint ?s1) else ?s1)"
    have c: "(if bounded ?s1 then applyConstraint ?s1 else Inr ?s1) = Inr s2"
      using False gf applyConstraint_cases[of ?s1]
      by (auto simp add: s2_def state_of_def)
    have s2: "same_scene ?s1 s2"
      by (simp add: s2_def same_scene_applyConstraint)
    define s3 where "s3 = (if collisions s2 then solveCollisions s2 else s2)"
    have s3: "same_scene s2 s3" by (simp add: s3_def)
    define s4 where "s4 = applyLinks s3"
    have s4: "same_scene s3 s4" by (simp add: s4_def)
    define s5 where "s5 = updatePositions dt s4"
    have s5: "same_scene s4 s5" by (simp add: s5_def)
    have u: "update dt s = Inr s5"
      using c by (simp add: update_def Let_def s3_def s4_def s5_def)
    have all4: "same_scene s s4"
      using g s2 s3 s4 by (blast intro: same_scene_trans)
    then have all: "same_scene s s5"
      using s5 by (blast intro: same_scene_trans)
    have fr: "position (objects s5 ! i) = p \<and> oldPosition (objects s5 ! i) = p"
      if "i < length (objects s)" "originalPosition (objects s ! i) = Some p" for i p
    proof -
      from that(1) have i4: "i < length (objects s4)"
        using same_scene_fields(11)[OF all4] by simp
      have "originalPosition (objects s4 ! i) = map originalPosition (objects s4) ! i"
        using i4 by simp
      also have "\<dots> = map originalPosition (objects s) ! i"
        using same_scene_fields(12)[OF all4] by simp
      also have "\<dots> = Some p" using that by simp
      finally have o: "originalPosition (objects s4 ! i) = Some p" .
      have "objects s5 ! i = updatePosition dt (objects s4 ! i)"
        using i4 by (simp add: s5_def updatePositions_def)
      with o show ?thesis by (simp add: updatePosition_def)
    qed
    have ok: "bounded s \<longrightarrow> canvas s \<noteq> None" using False by simp
    have "update dt s = Inr s5 \<and> same_scene s s5
       \<and> (\<forall>i p. i < length (objects s) \<and> originalPosition (objects s ! i) = Some p \<longrightarrow>
             position (objects s5 ! i) = p \<and> oldPosition (objects s5 ! i) = p)"
      using u all fr by blast
    then have "\<exists>s'. update dt s = Inr s' \<and> same_scene s s'
       \<and> (\<forall>i p. i < length (objects s) \<and> originalPosition (objects s ! i) = Some p \<longrightarrow>
             position (objects s' ! i) = p \<and> oldPosition (objects s' ! i) = p)"
      by (rule exI)
    with ok show ?thesis by (intro disjI2 conjI)
  qed
qed

lemma update_Inr:
  assumes "update dt s = Inr s'"
  shows "same_scene s s'"
    and "i < length (objects s) \<Longrightarrow> originalPosition (objects s ! i) = Some p \<Longrightarrow>
           position (objects s' ! i) = p \<and> oldPosition (objects s' ! i) = p"
proof -
  from update_cases[of s dt] assms
  have "\<exists>s''. update dt s = Inr s'' \<and> same_scene s s''
       \<and> (\<forall>i p. i < length (objects s) \<and> originalPosition (objects s ! i) = Some p \<longrightarrow>
             position (objects s'' ! i) = p \<and> oldPosition (objects s'' ! i) = p)"
    by (elim disjE) simp_all
  then obtain s'' where e: "update dt s = Inr s''" and sc: "same_scene s s''"
    and fr: "\<forall>i p. i < length (objects s) \<and> originalPosition (objects s ! i) = Some p \<longrightarrow>
             position (objects s'' ! i) = p \<and> oldPosition (objects s'' ! i) = p"
    by (elim exE conjE)
  from e assms have eq: "s'' = s'" by simp
  from sc eq show "same_scene s s'" by simp
  show "position (objects s' ! i) = p \<and> oldPosition (objects s' ! i) = p"
    if "i < length (objects s)" "originalPosition (objects s ! i) = Some p"
    using fr that eq by blast
qed

lemma update_total:
  assumes "bounded s \<longrightarrow> canvas s \<noteq> None"
  shows "\<exists>s'. update dt s = Inr s'"
  using update_cases[of s dt] assms by auto

lemma update_state_of: "same_scene s (state_of (update dt s))"
  using update_cases[of s dt] by (auto simp add: state_of_def)

lemma updates_Inr:
  assumes "updates dts s = Inr s'"
  shows "same_scene s s'
       \<and> (dts \<noteq> [] \<longrightarrow>
            (\<forall>i p. i < length (objects s) \<and> originalPosition (objects s ! i) = Some p \<longrightarrow>
               position (objects s' ! i) = p \<and> oldPosition (objects s' ! i) = p))"
  using assms
proof (induction dts arbitrary: s)
  case Nil
  then show ?case by simp
next
  case (Cons dt dts)
  from Cons.prems obtain s1 where u: "update dt s = Inr s1" and r: "updates dts s1 = Inr s'"
    by (auto split: sum.splits)
  note sc1 = update_Inr(1)[OF u]
  note ih = Cons.IH[OF r]
  from ih have sc2: "same_scene s1 s'" by simp
  have sc: "same_scene s s'" using sc1 sc2 by (rule same_scene_trans)
  have "position (objects s' ! i) = p \<and> oldPosition (objects s' ! i) = p"
    if i: "i < length (objects s)" and o: "originalPosition (objects s ! i) = Some p" for i p
  proof (cases "dts = []")
    case True
    with r have "s' = s1" by simp
    with update_Inr(2)[OF u i o] show ?thesis by simp
  next
    case False
    have i1: "i < length (objects s1)" using i same_scene_fields(11)[OF sc1] by simp
    have "originalPosition (objects s1 ! i) = map originalPosition (objects s1) ! i"
      using i1 by simp
    also have "\<dots> = map originalPosition (objects s) ! i"
      using same_scene_fields(12)[OF sc1] by simp
    also have "\<dots> = Some p" using i o by simp
    finally have o1: "originalPosition (objects s1 ! i) = Some p" .
    from ih False i1 o1 show ?thesis by blast
  qed
  with sc show ?case by blast
qed

lemma updates_total:
  assumes "bounded s \<longrightarrow> canvas s \<noteq> None"
  shows "\<exists>s'. updates dts s = Inr s'"
  using assms
proof (induction dts arbitrary: s)
  case Nil
  then show ?case by simp
next
  case (Cons dt dts)
  from update_total[OF Cons.prems] obtain s1 where u: "update dt s = Inr s1" by blast
  note f = same_scene_fields[OF update_Inr(1)[OF u]]
  have "bounded s1 \<longrightarrow> canvas s1 \<noteq> None" using Cons.prems f by simp
  from Cons.IH[OF this] u show ?case by simp
qed

lemma substeps_loop_updates:
  "substeps_loop i n dt s = updates (replicate (n - i) dt) s"
proof (induction i n dt s rule: substeps_loop.induct)
  case (1 i n subDt s)
  show ?case
  proof (cases "i < n")
    case True
    then have "n - i = Suc (n - Suc i)" by simp
    then have "updates (replicate (n - i) subDt) s =
        (case update subDt s of Inl e \<Rightarrow> Inl e | Inr s' \<Rightarrow> updates (replicate (n - Suc i) subDt) s')"
      by simp
    also have "\<dots> = substeps_loop i n subDt s"
      using True "1.IH" by (subst substeps_loop.simps[of i]) (simp split: sum.splits)
    finally show ?thesis by simp
  next
    case False
    then show ?thesis by (subst substeps_loop.simps) simp
  qed
qed

lemma updates_state_of: "same_scene s (state_of (updates dts s))"
proof (induction dts arbitrary: s)
  case Nil
  then show ?case by (simp add: state_of_def)
next
  case (Cons dt dts)
  show ?case
  proof (cases "update dt s")
    case (Inl e)
    with update_state_of[of s dt] show ?thesis by (simp add: state_of_def)
  next
    case (Inr s1)
    with update_state_of[of s dt] have "same_scene s s1" by (simp add: state_of_def)
    with Cons.IH[of s1] Inr show ?thesis by (simp add: same_scene_trans)
  qed
qed

text \<open>One substep of the example pendulum: the link pulls the free object to \<open>(1, 0)\<close>,
  from where it is integrated with the velocity \<open>(-1, 0)\<close> and gravity.\<close>

lemma pend_update:
  "update (Fin 1) pendulum =
     Inr (pendulum\<lparr>objects :=
            [anchor_a\<lparr>accleration := (Fin 0, Fin 1000)\<rparr>,
             free_b\<lparr>position := (Fin 0, Fin 1000), oldPosition := (Fin 1, Fin 0)\<rparr>]\<rparr>)"
  by (simp add: pendulum_def update_def Let_def applyGravity_def applyLinks_def
        updatePositions_def empty_Simulation_def example_defs accelerate_def Link_apply_def
        link_delta_def set_position_def updatePosition_def vec_defs)

text \<open>
  C7. Take an anchored object of a scene, with \<open>originalPosition = p\<close>, the position it
  was constructed at. Any sequence of \<open>update\<close> calls, with any \<open>dt\<close> each, returns when
  a canvas is attached or \<open>bounded\<close> is off; and whenever it returns, whatever the gravity,
  the flags, the links and the other objects are, the object is still in the scene at
  its index and still anchored at \<open>p\<close>, and its \<open>position\<close> and \<open>oldPosition\<close> are \<open>p\<close>.
  (After no call at all they are what they were, which is \<open>p\<close> from the constructor on.)
\<close>

theorem anchored_stays_home:
  assumes "i < length (objects s)" and "originalPosition (objects s ! i) = Some p"
      and "dts = [] \<longrightarrow> position (objects s ! i) = p \<and> oldPosition (objects s ! i) = p"
  shows "((bounded s \<longrightarrow> canvas s \<noteq> None) \<longrightarrow> (\<exists>s'. updates dts s = Inr s'))
       \<and> (\<forall>s'. updates dts s = Inr s' \<longrightarrow>
              i < length (objects s') \<and> originalPosition (objects s' ! i) = Some p
            \<and> position (objects s' ! i) = p \<and> oldPosition (objects s' ! i) = p)"
proof (intro conjI impI allI)
  assume "bounded s \<longrightarrow> canvas s \<noteq> None"
  then show "\<exists>s'. updates dts s = Inr s'" by (rule updates_total)
next
  fix s'
  assume r: "updates dts s = Inr s'"
  note u = updates_Inr[OF r]
  from u have sc: "same_scene s s'" by simp
  show i': "i < length (objects s')" using assms(1) same_scene_fields(11)[OF sc] by simp
  have "originalPosition (objects s' ! i) = map originalPosition (objects s') ! i"
    using i' by simp
  also have "\<dots> = map originalPosition (objects s) ! i"
    using same_scene_fields(12)[OF sc] by simp
  also have "\<dots> = Some p" using assms(1,2) by simp
  finally show "originalPosition (objects s' ! i) = Some p" .
  have "position (objects s' ! i) = p \<and> oldPosition (objects s' ! i) = p"
  proof (cases "dts = []")
    case True
    with r have "s' = s" by simp
    with True assms(3) show ?thesis by simp
  next
    case False
    with u assms(1,2) show ?thesis by blast
  qed
  then show "position (objects s' ! i) = p" and "oldPosition (objects s' ! i) = p" by simp_all
qed

theorem anchored_stays_home_witness:
  "originalPosition (objects pendulum ! 0) = Some (Fin 0, Fin 0)
 \<and> updates [Fin 1] pendulum =
     Inr (pendulum\<lparr>objects :=
            [anchor_a\<lparr>accleration := (Fin 0, Fin 1000)\<rparr>,
             free_b\<lparr>position := (Fin 0, Fin 1000), oldPosition := (Fin 1, Fin 0)\<rparr>]\<rparr>)
 \<and> position (objects (pendulum\<lparr>objects :=
            [anchor_a\<lparr>accleration := (Fin 0, Fin 1000)\<rparr>,
             free_b\<lparr>position := (Fin 0, Fin 1000), oldPosition := (Fin 1, Fin 0)\<rparr>]\<rparr>) ! 0)
     = (Fin 0, Fin 0)"
proof -
  let ?s' = "pendulum\<lparr>objects :=
            [anchor_a\<lparr>accleration := (Fin 0, Fin 1000)\<rparr>,
             free_b\<lparr>position := (Fin 0, Fin 1000), oldPosition := (Fin 1, Fin 0)\<rparr>]\<rparr>"
  have i: "0 < length (objects pendulum)"
    by (simp add: pendulum_def)
  have o: "originalPosition (objects pendulum ! 0) = Some (Fin 0, Fin 0)"
    by (simp add: pendulum_def example_defs)
  have n: "[Fin 1] = [] \<longrightarrow> position (objects pendulum ! 0) = (Fin 0, Fin 0)
             \<and> oldPosition (objects pendulum ! 0) = (Fin 0, Fin 0)"
    by simp
  have r: "updates [Fin 1] pendulum = Inr ?s'"
    by (simp add: pend_update)
  from anchored_stays_home [OF i o n] r
  have "position (objects ?s' ! 0) = (Fin 0, Fin 0)" by blast
  with o r show ?thesis by (intro conjI)
qed

section \<open>The tick\<close>

lemma draw_eq:
  "draw s = (if ctx s = None \<or> canvas s = None then Inl (TypeError, s) else Inr s)"
  by (simp add: draw_def split: option.splits)

lemma step_eq:
  "step env t s =
     step_finish env t (step_dt s t)
       (updates (replicate 1000 (step_subDt (step_dt s t))) (s\<lparr>sim_t := Some t\<rparr>))"
  by (simp add: step_def Let_def substeps_loop_updates substeps_def)





lemma schedule_objects [simp]: "objects (schedule env s) = objects s"
  by (simp add: schedule_def)







lemma step_finish_sim_t:
  assumes "sim_t (state_of r) = v"
  shows "sim_t (state_of (step_finish env t dt r)) = v"
proof (cases r)
  case (Inl e)
  with assms show ?thesis by (simp add: step_finish_def)
next
  case (Inr s2)
  with assms show ?thesis
    by (simp add: step_finish_def draw_eq state_of_def spawn_def schedule_def push_object_def)
qed

lemma step_sim_t: "sim_t (state_of (step env t s)) = Some t"
proof -
  let ?r = "updates (replicate 1000 (step_subDt (step_dt s t))) (s\<lparr>sim_t := Some t\<rparr>)"
  have "sim_t (state_of ?r) = sim_t (s\<lparr>sim_t := Some t\<rparr>)"
    by (rule same_scene_fields(5)[OF updates_state_of])
  then have "sim_t (state_of ?r) = Some t" by simp
  then show ?thesis unfolding step_eq by (rule step_finish_sim_t)
qed

lemma step_dt_falsy:
  assumes "sim_t s = None \<or> sim_t s = Some (Fin 0)"
  shows "step_dt s (Fin x) = Fin 0"
  using assms by (auto simp add: step_dt_def truthy_def num_sub_def)

lemma step_subDt_zero: "step_subDt (Fin 0) = Fin 0"
  by (simp add: step_subDt_def substeps_def)

text \<open>
  C10. The stored timestamp is tested for truthiness. A tick at a finite \<open>t\<close> that
  finds \<open>0\<close> stored computes \<open>dt = 0\<close>, hence \<open>subDt = 0\<close>, and runs its substeps with
  \<open>0\<close>. \<open>start\<close> on a simulation that never ticked runs its tick with \<open>dt = 0\<close>, and
  any \<open>start\<close> leaves \<open>0\<close> stored, so that the tick that follows it, at any finite
  \<open>t\<close>, computes \<open>dt = 0\<close> again and runs its substeps with \<open>0\<close>.
\<close>

theorem zero_timestamp_falsy:
  "(sim_t s = Some (Fin 0) \<longrightarrow>
      step_dt s (Fin x) = Fin 0 \<and> step_subDt (step_dt s (Fin x)) = Fin 0
    \<and> step env (Fin x) s =
        step_finish env (Fin x) (Fin 0)
          (substeps_loop 0 substeps (Fin 0) (s\<lparr>sim_t := Some (Fin x)\<rparr>)))
 \<and> (sim_t s = None \<longrightarrow>
      start env c s =
        step_finish env (Fin 0) (Fin 0)
          (substeps_loop 0 substeps (Fin 0)
             ((case c of None \<Rightarrow> s
               | Some cv \<Rightarrow> s\<lparr>canvas := Some cv, ctx := getContext2d cv\<rparr>)
              \<lparr>playing := True, sim_t := Some (Fin 0)\<rparr>)))
 \<and> sim_t (state_of (start env c s)) = Some (Fin 0)
 \<and> step_dt (state_of (start env c s)) (Fin x) = Fin 0
 \<and> step env' (Fin x) (state_of (start env c s)) =
      step_finish env' (Fin x) (Fin 0)
        (substeps_loop 0 substeps (Fin 0) ((state_of (start env c s))\<lparr>sim_t := Some (Fin x)\<rparr>))"
proof -
  have zero: "step env0 (Fin x0) s0 =
        step_finish env0 (Fin x0) (Fin 0)
          (substeps_loop 0 substeps (Fin 0) (s0\<lparr>sim_t := Some (Fin x0)\<rparr>))"
    if "sim_t s0 = None \<or> sim_t s0 = Some (Fin 0)" for env0 x0 s0
    using step_dt_falsy[OF that] by (simp add: step_def Let_def step_subDt_zero)
  have a: "sim_t s = Some (Fin 0) \<longrightarrow>
      step_dt s (Fin x) = Fin 0 \<and> step_subDt (step_dt s (Fin x)) = Fin 0
    \<and> step env (Fin x) s =
        step_finish env (Fin x) (Fin 0)
          (substeps_loop 0 substeps (Fin 0) (s\<lparr>sim_t := Some (Fin x)\<rparr>))"
    using zero[of s env x] by (simp add: step_dt_falsy step_subDt_zero)
  have b: "sim_t s = None \<longrightarrow>
      start env c s =
        step_finish env (Fin 0) (Fin 0)
          (substeps_loop 0 substeps (Fin 0)
             ((case c of None \<Rightarrow> s
               | Some cv \<Rightarrow> s\<lparr>canvas := Some cv, ctx := getContext2d cv\<rparr>)
              \<lparr>playing := True, sim_t := Some (Fin 0)\<rparr>))"
  proof
    assume n: "sim_t s = None"
    let ?s2 = "(case c of None \<Rightarrow> s
               | Some cv \<Rightarrow> s\<lparr>canvas := Some cv, ctx := getContext2d cv\<rparr>)\<lparr>playing := True\<rparr>"
    have "sim_t ?s2 = None" using n by (simp split: option.splits)
    then have "sim_t ?s2 = None \<or> sim_t ?s2 = Some (Fin 0)" by simp
    from zero[OF this, of env 0] show "start env c s =
        step_finish env (Fin 0) (Fin 0)
          (substeps_loop 0 substeps (Fin 0)
             ((case c of None \<Rightarrow> s
               | Some cv \<Rightarrow> s\<lparr>canvas := Some cv, ctx := getContext2d cv\<rparr>)
              \<lparr>playing := True, sim_t := Some (Fin 0)\<rparr>))"
      by (simp add: start_def)
  qed
  have t: "sim_t (state_of (start env c s)) = Some (Fin 0)"
    by (simp add: start_def step_sim_t)
  then have f: "sim_t (state_of (start env c s)) = None \<or> sim_t (state_of (start env c s)) = Some (Fin 0)"
    by simp
  note d = step_dt_falsy[OF f, of x]
  note e = zero[OF f, of env' x]
  from a b t d e show ?thesis by blast
qed

theorem zero_timestamp_falsy_witness:
  "sim_t (new_Simulation BoundedObjects) = None
 \<and> sim_t (state_of (start env0 None (new_Simulation BoundedObjects))) = Some (Fin 0)
 \<and> step_dt (state_of (start env0 None (new_Simulation BoundedObjects))) (Fin 16) = Fin 0
 \<and> sim_t (running\<lparr>sim_t := Some (Fin 0)\<rparr>) = Some (Fin 0)
 \<and> step_dt (running\<lparr>sim_t := Some (Fin 0)\<rparr>) (Fin 16) = Fin 0
 \<and> step_subDt (step_dt (running\<lparr>sim_t := Some (Fin 0)\<rparr>) (Fin 16)) = Fin 0"
proof -
  note fresh = zero_timestamp_falsy [of "new_Simulation BoundedObjects" 16 env0 None env0]
  note again = zero_timestamp_falsy [of "running\<lparr>sim_t := Some (Fin 0)\<rparr>" 16 env0 None env0]
  have n: "sim_t (new_Simulation BoundedObjects) = None"
    by (simp add: new_BoundedObjects_eq)
  have z: "sim_t (running\<lparr>sim_t := Some (Fin 0)\<rparr>) = Some (Fin 0)"
    by simp
  from fresh have a: "sim_t (state_of (start env0 None (new_Simulation BoundedObjects))) = Some (Fin 0)"
    and b: "step_dt (state_of (start env0 None (new_Simulation BoundedObjects))) (Fin 16) = Fin 0"
    by blast+
  from again z have c: "step_dt (running\<lparr>sim_t := Some (Fin 0)\<rparr>) (Fin 16) = Fin 0"
    and d: "step_subDt (step_dt (running\<lparr>sim_t := Some (Fin 0)\<rparr>) (Fin 16)) = Fin 0"
    by blast+
  from n a b z c d show ?thesis by (intro conjI)
qed

text \<open>
  C5, as the code has it. \<open>start()\<close> with no canvas, now or before, does not return: it
  throws a \<open>TypeError\<close>, having set \<open>playing\<close> and stored the timestamp \<open>0\<close>; no frame is
  requested and no object is added. With \<open>bounded\<close> set the throw comes from the
  containment clamp of the first substep, after gravity was applied; otherwise it comes
  from \<open>draw\<close>, after all 1000 substeps have run and returned.
\<close>

theorem start_without_canvas:
  assumes "canvas s = None" "ctx s = None"
  shows "\<exists>s'. start env None s = Inl (TypeError, s')
       \<and> playing s' \<and> sim_t s' = Some (Fin 0) \<and> sim_id s' = sim_id s
       \<and> length (objects s') = length (objects s)
       \<and> (bounded s \<longrightarrow> s' = applyGravity (s\<lparr>playing := True, sim_t := Some (Fin 0)\<rparr>))
       \<and> (\<not> bounded s \<longrightarrow>
            updates (replicate 1000 (step_subDt (step_dt s (Fin 0))))
                    (s\<lparr>playing := True, sim_t := Some (Fin 0)\<rparr>) = Inr s')"
proof -
  define s3 where "s3 = s\<lparr>playing := True, sim_t := Some (Fin 0)\<rparr>"
  define subDt where "subDt = step_subDt (step_dt s (Fin 0))"
  have dt: "step_dt (s\<lparr>playing := True\<rparr>) (Fin 0) = step_dt s (Fin 0)"
    by (simp add: step_dt_def)
  have st: "start env None s =
      step_finish env (Fin 0) (step_dt s (Fin 0)) (updates (replicate 1000 subDt) s3)"
    by (simp add: start_def step_eq dt s3_def subDt_def)
  have s3f: "canvas s3 = None" "ctx s3 = None" "playing s3" "sim_t s3 = Some (Fin 0)"
    "sim_id s3 = sim_id s" "bounded s3 = bounded s" "objects s3 = objects s"
    using assms by (simp_all add: s3_def)
  show ?thesis
  proof (cases "bounded s")
    case True
    have g: "same_scene s3 (applyGravity s3)" by simp
    note gf = same_scene_fields[OF g]
    have "update subDt s3 = Inl (TypeError, applyGravity s3)"
      using update_cases[of s3 subDt] True s3f by auto
    moreover have "replicate 1000 subDt = subDt # replicate 999 subDt"
      by (simp add: replicate_Suc[symmetric] del: replicate_Suc)
    ultimately have "updates (replicate 1000 subDt) s3 = Inl (TypeError, applyGravity s3)"
      by simp
    then have r: "start env None s = Inl (TypeError, applyGravity s3)"
      by (simp add: st step_finish_def)
    have "playing (applyGravity s3) \<and> sim_t (applyGravity s3) = Some (Fin 0)
        \<and> sim_id (applyGravity s3) = sim_id s
        \<and> length (objects (applyGravity s3)) = length (objects s)"
      using gf s3f by simp
    with r True show ?thesis by (simp add: s3_def)
  next
    case False
    then have "bounded s3 \<longrightarrow> canvas s3 \<noteq> None" using s3f by simp
    from updates_total[OF this] obtain s' where u: "updates (replicate 1000 subDt) s3 = Inr s'"
      by blast
    have sc: "same_scene s3 s'" using updates_Inr[OF u] by simp
    note f = same_scene_fields[OF sc]
    have "ctx s' = None" using f s3f by simp
    then have r: "start env None s = Inl (TypeError, s')"
      using u by (simp add: st step_finish_def draw_eq)
    have "playing s' \<and> sim_t s' = Some (Fin 0) \<and> sim_id s' = sim_id s
        \<and> length (objects s') = length (objects s)"
      using f s3f by simp
    with r u False show ?thesis by (simp add: s3_def subDt_def)
  qed
qed

theorem start_without_canvas_witness:
  "canvas (new_Simulation BoundedObjects) = None \<and> ctx (new_Simulation BoundedObjects) = None
 \<and> start env0 None (new_Simulation BoundedObjects)
     = Inl (TypeError, (new_Simulation BoundedObjects)\<lparr>playing := True, sim_t := Some (Fin 0)\<rparr>)"
  using start_without_canvas [of "new_Simulation BoundedObjects" env0]
  by (auto simp add: new_BoundedObjects_eq applyGravity_def)

text \<open>C5 as the specification words it: the failure comes before any simulation work.
  For the long pendulum, started with no canvas, the state in which the \<open>TypeError\<close> is
  thrown is the one that 1000 completed substeps have produced, with \<open>playing\<close> set.\<close>

theorem start_without_canvas_counterexample:
  "canvas (new_Simulation LongPendulum) = None \<and> ctx (new_Simulation LongPendulum) = None
 \<and> \<not> playing (new_Simulation LongPendulum)
 \<and> start env0 None (new_Simulation LongPendulum)
     = Inl (TypeError, state_of (start env0 None (new_Simulation LongPendulum)))
 \<and> updates (replicate 1000 (Fin 0))
      ((new_Simulation LongPendulum)\<lparr>playing := True, sim_t := Some (Fin 0)\<rparr>)
     = Inr (state_of (start env0 None (new_Simulation LongPendulum)))
 \<and> playing (state_of (start env0 None (new_Simulation LongPendulum)))"
proof -
  let ?s = "new_Simulation LongPendulum"
  have dt: "step_subDt (step_dt ?s (Fin 0)) = Fin 0"
    by (simp add: step_dt_falsy new_LongPendulum_fields step_subDt_zero)
  have nb: "\<not> bounded (?s\<lparr>playing := True, sim_t := Some (Fin 0)\<rparr>)"
    by (simp add: new_LongPendulum_fields)
  then have "bounded (?s\<lparr>playing := True, sim_t := Some (Fin 0)\<rparr>)
      \<longrightarrow> canvas (?s\<lparr>playing := True, sim_t := Some (Fin 0)\<rparr>) \<noteq> None" by simp
  from updates_total[OF this] obtain s' where
    u: "updates (replicate 1000 (Fin 0)) (?s\<lparr>playing := True, sim_t := Some (Fin 0)\<rparr>) = Inr s'"
    by blast
  have sc: "same_scene (?s\<lparr>playing := True, sim_t := Some (Fin 0)\<rparr>) s'"
    using updates_Inr[OF u] by simp
  note f = same_scene_fields[OF sc]
  have c: "ctx s' = None" using f by (simp add: new_LongPendulum_fields)
  have p: "playing s'" using f by simp
  have dt2: "step_dt (?s\<lparr>playing := True\<rparr>) (Fin 0) = step_dt ?s (Fin 0)"
    by (simp add: step_dt_def)
  have "start env0 None ?s = Inl (TypeError, s')"
    using u c by (simp add: start_def step_eq dt dt2 step_finish_def draw_eq)
  with u p show ?thesis by (simp add: state_of_def new_LongPendulum_fields)
qed

end
